theory Spec2Isabelle
  imports Complex_Main
begin

section \<open>Data model of the data compiler (src/compile/data.ts)\<close>

text \<open>
  The compiler reads a \<open>Model\<close> and returns Vega dataset definitions. The model class and
  the helper modules it imports (\<open>../fielddef\<close>, \<open>../bin\<close>, \<open>./scale\<close>, \<open>./time\<close>) are
  not part of the verified file: the model is a record of the methods the compiler calls,
  and the imported helper functions are a record of functions, passed to every compiler
  function that uses one. The theorems stated for \<open>H\<close> and \<open>model\<close> hold for all helpers and
  all models.
\<close>

subsection \<open>Channels, types, field definitions\<close>

text \<open>The channels the compiler names, and any other channel of the enumeration.\<close>

datatype Channel = X | Y | ROW | COLUMN | COLOR | OtherChannel string

datatype Type = NOMINAL | ORDINAL | QUANTITATIVE | TEMPORAL

text \<open>
  Numbers in this file are pixel sizes, paddings, bin counts and array lengths, whole or
  fractional. The compiler never computes with them; it compares them with zero and
  concatenates them into formula text.
\<close>

type_synonym number = real

text \<open>
  The bin property of a field definition is a boolean or an object of bin parameters. The
  compiler reads \<open>maxbins\<close> and \<open>step\<close>; the remaining parameters are copied as they are.
\<close>

record Bin =
  maxbins :: "number option"
  step :: "number option"
  bin_params :: "(string \<times> number) list"

datatype BinSpec = BinBool bool | BinObject Bin

record FieldDef =
  fd_field :: string
  fd_type :: Type
  fd_aggregate :: "string option"
  fd_bin :: "BinSpec option"
  fd_timeUnit :: "string option"

text \<open>JavaScript truthiness of the optional properties the compiler tests.\<close>

definition truthy_string :: "string \<Rightarrow> bool" where
  "truthy_string s = (s \<noteq> [])"

fun truthy_opt_string :: "string option \<Rightarrow> bool" where
  "truthy_opt_string None = False"
| "truthy_opt_string (Some s) = truthy_string s"

fun truthy_bin :: "BinSpec option \<Rightarrow> bool" where
  "truthy_bin None = False"
| "truthy_bin (Some (BinBool b)) = b"
| "truthy_bin (Some (BinObject _)) = True"

fun truthy_number :: "number option \<Rightarrow> bool" where
  "truthy_number None = False"
| "truthy_number (Some n) = (n \<noteq> 0)"

subsection \<open>Scales, configuration, the model\<close>

text \<open>
  A scale configuration: \<open>sc_domain\<close> is \<open>Some xs\<close> exactly when the domain property is an
  array (\<open>scale.domain instanceof Array\<close>).
\<close>

record Scale =
  sc_type :: "string option"
  sc_domain :: "string list option"
  sc_padding :: "number option"
  sc_bandWidth :: "number option"

text \<open>The option object of a field reference: the properties this file passes.\<close>

record FieldRefOption =
  nofn :: bool
  datum :: bool
  binSuffix :: "string option"
  prefn :: "string option"

definition no_opt :: FieldRefOption where
  "no_opt = \<lparr>nofn = False, datum = False, binSuffix = None, prefn = None\<rparr>"

record Formula =
  f_field :: string
  f_expr :: string

record TransformConfig =
  filterNull :: "bool option"
  calculate :: "Formula list option"
  filter_expr :: "string option"

record UnitConfig =
  unit_width :: number
  unit_height :: number

record DataConfig =
  data_values :: "string option"
  data_url :: "string option"
  data_formatType :: "string option"

record StackProperties =
  groupbyChannel :: Channel
  fieldChannel :: Channel

text \<open>
  The model, as the methods the compiler calls on it. \<open>channelDefs\<close> is the sequence of
  (field definition, channel) pairs that \<open>model.forEach\<close> and \<open>model.reduce\<close> hand to
  their callback, in the model's channel scan order. \<open>model_scale\<close> may return no scale
  (the compiler guards one of its uses with \<open>scale && ...\<close>).
\<close>

record Model =
  has :: "Channel \<Rightarrow> bool"
  model_fieldDef :: "Channel \<Rightarrow> FieldDef"
  model_scale :: "Channel \<Rightarrow> Scale option"
  model_field :: "Channel \<Rightarrow> FieldRefOption \<Rightarrow> string"
  isOrdinalScale :: "Channel \<Rightarrow> bool"
  mark :: string
  model_transform :: TransformConfig
  config_unit :: UnitConfig
  hasValues :: bool
  model_data :: DataConfig
  model_dataTable :: string
  model_stack :: "StackProperties option"
  channelDefs :: "(FieldDef \<times> Channel) list"

text \<open>
  The functions imported from modules outside this file, taken as parameters:
  \<open>field\<close> and \<open>isCount\<close> of \<open>../fielddef\<close>, \<open>autoMaxBins\<close> of \<open>../bin\<close>, \<open>type\<close> of
  \<open>./scale\<close> (imported as \<open>scaleType\<close>), \<open>parseExpression\<close> and \<open>rawDomain\<close> of \<open>./time\<close>
  (\<open>None\<close> is \<open>null\<close>). With them goes \<open>numberToString\<close>, the language's own conversion of
  a number to a string, which the layout formulas apply when they concatenate a number.
\<close>

record Helpers =
  field :: "FieldDef \<Rightarrow> FieldRefOption \<Rightarrow> string"
  isCount :: "FieldDef \<Rightarrow> bool"
  autoMaxBins :: "Channel \<Rightarrow> number"
  scaleType :: "Scale option \<Rightarrow> FieldDef \<Rightarrow> Channel \<Rightarrow> string \<Rightarrow> string"
  parseExpression :: "string \<Rightarrow> string \<Rightarrow> bool \<Rightarrow> string"
  rawDomain :: "string \<Rightarrow> Channel \<Rightarrow> number list option"
  numberToString :: "number \<Rightarrow> string"

subsection \<open>Vega transforms and datasets\<close>

text \<open>A formula expression is a string or, in the layout dataset, a bare number.\<close>

datatype VgExpr = Str string | Num number

text \<open>
  The \<open>summarize\<close> property is an array of \<open>{field, ops}\<close> objects (layout, stack) or an
  object from field name to operations (summary); both keep their order.
\<close>

datatype Summarize =
    SummarizeList "(string \<times> string list) list"
  | SummarizeMap "(string \<times> string list) list"

record BinOutput =
  out_start :: string
  out_mid :: string
  out_end :: string

datatype VgTransform =
    VgFilter string
  | VgFormula string VgExpr
  | VgBin string BinOutput "number option" "number option" "(string \<times> number) list"
  | VgAggregate "string list option" Summarize
  | VgSort string
  | VgRank string string

text \<open>
  Inline values: the user's literal data (kept as its text), the single placeholder row
  \<open>[{}]\<close> of the layout dataset, or the enumerated domain of a time unit.
\<close>

datatype VgValues = UserValues string | EmptyRow | Enumeration "number list"

record VgFormat =
  format_type :: "string option"
  format_parse :: "(string \<times> string) list option"

record VgData =
  name :: string
  source :: "string option"
  vg_values :: "VgValues option"
  format :: "VgFormat option"
  url :: "string option"
  transform :: "VgTransform list"

text \<open>The only fault: reading a property of \<open>undefined\<close>.\<close>

datatype error = TypeError

subsection \<open>Utilities\<close>

text \<open>
  The accumulators of the compiler are plain objects (\<open>{}\<close>) assigned by key. An object
  is held as its own properties in the order in which JavaScript enumerates them: first the
  properties whose key is an array index (the canonical decimal form of an integer from 0
  to 4294967294), by ascending index, then the other properties in the order of their
  creation. A key is an array index when printing its value in decimal digits gives the
  key back.
\<close>

function show_digits :: "int \<Rightarrow> string" where
  "show_digits n = (if n < 10 then [char_of (48 + n)]
                    else show_digits (n div 10) @ [char_of (48 + n mod 10)])"
  by auto
termination
  by (relation "measure nat") auto

declare show_digits.simps [simp del]

definition is_digit :: "char \<Rightarrow> bool" where
  "is_digit c = (48 \<le> (of_char c :: int) \<and> (of_char c :: int) \<le> 57)"

definition digits_value :: "string \<Rightarrow> int" where
  "digits_value s = fold (\<lambda>c n. 10 * n + (of_char c - 48)) s 0"

definition is_array_index :: "string \<Rightarrow> bool" where
  "is_array_index s = (s \<noteq> [] \<and> list_all is_digit s \<and> digits_value s < 4294967295 \<and>
                       show_digits (digits_value s) = s)"

type_synonym 'v js_object = "(int \<times> 'v) list \<times> (string \<times> 'v) list"

definition empty_object :: "'v js_object" where
  "empty_object = ([], [])"

text \<open>Assignment among the indexed properties, kept in ascending order of the index.\<close>

fun index_set :: "(int \<times> 'v) list \<Rightarrow> int \<Rightarrow> 'v \<Rightarrow> (int \<times> 'v) list" where
  "index_set [] n v = [(n, v)]"
| "index_set ((m, w) # d) n v =
     (if n < m then (n, v) # (m, w) # d
      else if n = m then (n, v) # d
      else (m, w) # index_set d n v)"

text \<open>
  Assignment among the other properties: a new key is appended, an existing key keeps its
  place and takes the new value.
\<close>

fun dict_set :: "('k \<times> 'v) list \<Rightarrow> 'k \<Rightarrow> 'v \<Rightarrow> ('k \<times> 'v) list" where
  "dict_set [] k v = [(k, v)]"
| "dict_set ((k', v') # d) k v = (if k' = k then (k, v) # d else (k', v') # dict_set d k v)"

text \<open>
  The assignment \<open>obj[k] = v\<close>. For the key \<open>__proto__\<close> it runs the setter inherited
  from \<open>Object.prototype\<close>, which creates no property: the compiler assigns a boolean or a
  string there, which the setter ignores, or the prototype the object already has.
\<close>

definition object_set :: "'v js_object \<Rightarrow> string \<Rightarrow> 'v \<Rightarrow> 'v js_object" where
  "object_set obj k v =
     (if k = ''__proto__'' then obj
      else if is_array_index k then (index_set (fst obj) (digits_value k) v, snd obj)
      else (fst obj, dict_set (snd obj) k v))"

text \<open>The own properties of an object in enumeration order, and the lookup of an own key.\<close>

definition entries :: "'v js_object \<Rightarrow> (string \<times> 'v) list" where
  "entries obj = map (\<lambda>(n, v). (show_digits n, v)) (fst obj) @ snd obj"

definition own_property :: "'v js_object \<Rightarrow> string \<Rightarrow> 'v option" where
  "own_property obj k = map_of (entries obj) k"

text \<open>
  The properties every plain object inherits from \<open>Object.prototype\<close>; each is a function
  or an object, so reading one of these keys gives a truthy value also where the object has
  no such property of its own.
\<close>

definition object_prototype_names :: "string list" where
  "object_prototype_names =
     [''constructor'', ''hasOwnProperty'', ''isPrototypeOf'', ''propertyIsEnumerable'',
      ''toLocaleString'', ''toString'', ''valueOf'', ''__proto__'', ''__defineGetter__'',
      ''__defineSetter__'', ''__lookupGetter__'', ''__lookupSetter__'']"

text \<open>The truthiness of \<open>obj[k]\<close> for an object whose own values are booleans.\<close>

definition truthy_lookup :: "bool js_object \<Rightarrow> string \<Rightarrow> bool" where
  "truthy_lookup obj k =
     (case own_property obj k of Some b \<Rightarrow> b | None \<Rightarrow> k \<in> set object_prototype_names)"

text \<open>Modelled from the spec: \<open>keys\<close> and \<open>vals\<close> of \<open>../util\<close> are not in the verified
  file; they list the keys and the values of the object's own properties, in enumeration
  order.
\<close>

definition keys :: "'v js_object \<Rightarrow> string list" where
  "keys obj = map fst (entries obj)"

definition vals :: "'v js_object \<Rightarrow> 'v list" where
  "vals obj = map snd (entries obj)"

text \<open>
  The elements of a list in the order of their first occurrence, each once: the order of
  the properties that are not indexed, after the elements were assigned in turn.
\<close>

definition firsts :: "'a list \<Rightarrow> 'a list" where
  "firsts xs = rev (remdups (rev xs))"

text \<open>\<open>Array.prototype.join\<close> on strings.\<close>

fun join :: "string \<Rightarrow> string list \<Rightarrow> string" where
  "join sep [] = []"
| "join sep [x] = x"
| "join sep (x # y # ys) = x @ sep @ join sep (y # ys)"

text \<open>Modelled from the spec: \<open>model.reduce\<close> and \<open>model.forEach\<close> (of the model class,
  not in the verified file) scan the bound channels in the model's canonical channel order
  and call the callback with the field definition and the channel. A \<open>forEach\<close> callback
  that assigns to variables of the enclosing function is a \<open>reduce\<close> over those variables.
\<close>

definition reduce :: "Model \<Rightarrow> ('a \<Rightarrow> FieldDef \<Rightarrow> Channel \<Rightarrow> 'a) \<Rightarrow> 'a \<Rightarrow> 'a" where
  "reduce model f init = fold (\<lambda>(fieldDef, channel) acc. f acc fieldDef channel) (channelDefs model) init"

section \<open>The source dataset (namespace source)\<close>

definition SOURCE :: string where "SOURCE = ''source''"
definition SUMMARY :: string where "SUMMARY = ''summary''"
definition LAYOUT :: string where "LAYOUT = ''layout''"
definition STACKED_SCALE :: string where "STACKED_SCALE = ''stacked_scale''"
definition TEXT_MARK :: string where "TEXT_MARK = ''text''"

fun DEFAULT_NULL_FILTERS :: "Type \<Rightarrow> bool" where
  "DEFAULT_NULL_FILTERS NOMINAL = False"
| "DEFAULT_NULL_FILTERS ORDINAL = False"
| "DEFAULT_NULL_FILTERS QUANTITATIVE = True"
| "DEFAULT_NULL_FILTERS TEMPORAL = True"

definition formatParse :: "Helpers \<Rightarrow> Model \<Rightarrow> string js_object option" where
  "formatParse H model =
     (let calcFieldMap = fold (\<lambda>formula fieldMap. object_set fieldMap (f_field formula) True)
                           (case calculate (model_transform model) of None \<Rightarrow> [] | Some fs \<Rightarrow> fs)
                           empty_object
      in reduce model (\<lambda>parse fieldDef channel.
           if fd_type fieldDef = TEMPORAL then
             Some (object_set (case parse of None \<Rightarrow> empty_object | Some p \<Rightarrow> p)
                     (fd_field fieldDef) ''date'')
           else if fd_type fieldDef = QUANTITATIVE then
             (if isCount H fieldDef \<or> truthy_lookup calcFieldMap (fd_field fieldDef) then parse
              else Some (object_set (case parse of None \<Rightarrow> empty_object | Some p \<Rightarrow> p)
                           (fd_field fieldDef) ''number''))
           else parse) None)"

definition timeTransform :: "Helpers \<Rightarrow> Model \<Rightarrow> VgTransform list" where
  "timeTransform H model =
     reduce model (\<lambda>transform fieldDef channel.
       let ref = field H fieldDef (no_opt\<lparr>nofn := True, datum := True\<rparr>)
       in if fd_type fieldDef = TEMPORAL \<and> truthy_opt_string (fd_timeUnit fieldDef) then
            transform @ [VgFormula (field H fieldDef no_opt)
                           (Str (parseExpression H (the (fd_timeUnit fieldDef)) ref False))]
          else transform) []"

text \<open>
  One step of the \<open>binTransform\<close> callback. \<open>extend\<close> copies the bin object's
  parameters into the transform when \<open>bin\<close> is not a boolean.
\<close>

definition binTransform_step ::
  "Helpers \<Rightarrow> Model \<Rightarrow> VgTransform list \<Rightarrow> FieldDef \<Rightarrow> Channel \<Rightarrow> VgTransform list" where
  "binTransform_step H model = (\<lambda>transform fieldDef channel.
      let bin = fd_bin (model_fieldDef model channel);
          scale = model_scale model channel
      in if truthy_bin bin then
           (let params = (case bin of Some (BinObject b) \<Rightarrow> b
                          | _ \<Rightarrow> \<lparr>maxbins = None, step = None, bin_params = []\<rparr>);
                output = \<lparr>out_start = field H fieldDef (no_opt\<lparr>binSuffix := Some ''_start''\<rparr>),
                          out_mid = field H fieldDef (no_opt\<lparr>binSuffix := Some ''_mid''\<rparr>),
                          out_end = field H fieldDef (no_opt\<lparr>binSuffix := Some ''_end''\<rparr>)\<rparr>;
                binTrans_maxbins =
                  (if \<not> truthy_number (maxbins params) \<and> \<not> truthy_number (step params)
                   then Some (autoMaxBins H channel) else maxbins params);
                binTrans = VgBin (fd_field fieldDef) output binTrans_maxbins (step params)
                             (bin_params params);
                transform = transform @ [binTrans]
            in if scaleType H scale fieldDef channel (mark model) = ''ordinal'' \<or> channel = COLOR then
                 transform @
                   [VgFormula (field H fieldDef (no_opt\<lparr>binSuffix := Some ''_range''\<rparr>))
                      (Str (field H fieldDef (no_opt\<lparr>datum := True, binSuffix := Some ''_start''\<rparr>) @
                            '' + '' @ [CHR 0x27] @ ''-'' @ [CHR 0x27] @ '' + '' @
                            field H fieldDef (no_opt\<lparr>datum := True, binSuffix := Some ''_end''\<rparr>)))]
               else transform)
         else transform)"

definition binTransform :: "Helpers \<Rightarrow> Model \<Rightarrow> VgTransform list" where
  "binTransform H model = reduce model (binTransform_step H model) []"

definition nullFilterTransform :: "Model \<Rightarrow> VgTransform list" where
  "nullFilterTransform model =
     (let filterNull = filterNull (model_transform model);
          filteredFields = keys (reduce model (\<lambda>aggregator fieldDef channel.
            if filterNull = Some True \<or>
               (filterNull = None \<and> truthy_string (fd_field fieldDef) \<and> fd_field fieldDef \<noteq> ''*'' \<and>
                DEFAULT_NULL_FILTERS (fd_type fieldDef))
            then object_set aggregator (fd_field fieldDef) True
            else aggregator) empty_object)
      in if length filteredFields > 0 then
           [VgFilter (join '' && '' (map (\<lambda>fieldName. ''datum.'' @ fieldName @ ''!==null'') filteredFields))]
         else [])"

definition filterTransform :: "Model \<Rightarrow> VgTransform list" where
  "filterTransform model =
     (let filter = filter_expr (model_transform model)
      in if truthy_opt_string filter then [VgFilter (the filter)] else [])"

definition formulaTransform :: "Model \<Rightarrow> VgTransform list" where
  "formulaTransform model =
     fold (\<lambda>formula transform. transform @ [VgFormula (f_field formula) (Str (f_expr formula))])
       (case calculate (model_transform model) of None \<Rightarrow> [] | Some fs \<Rightarrow> fs) []"

definition source_transform :: "Helpers \<Rightarrow> Model \<Rightarrow> VgTransform list" where
  "source_transform H model =
     nullFilterTransform model @ formulaTransform model @ filterTransform model @
     binTransform H model @ timeTransform H model"

definition source_def :: "Helpers \<Rightarrow> Model \<Rightarrow> VgData" where
  "source_def H model =
     (let source = \<lparr>name = SOURCE, source = None, vg_values = None, format = None, url = None,
                     transform = []\<rparr>;
          source = (if hasValues model then
                      source\<lparr>vg_values := map_option UserValues (data_values (model_data model)),
                             format := Some \<lparr>format_type = Some ''json'', format_parse = None\<rparr>\<rparr>
                    else
                      source\<lparr>url := data_url (model_data model),
                             format := Some \<lparr>format_type = data_formatType (model_data model),
                                             format_parse = None\<rparr>\<rparr>);
          parse = formatParse H model;
          source = (case parse of
                      Some p \<Rightarrow> source\<lparr>format := map_option (\<lambda>f. f\<lparr>format_parse := Some (entries p)\<rparr>)
                                                  (format source)\<rparr>
                    | None \<Rightarrow> source)
      in source\<lparr>transform := source_transform H model\<rparr>)"

section \<open>The layout dataset (namespace layout)\<close>

text \<open>
  What a string concatenation makes of a number that may be \<open>undefined\<close>, and of a
  cardinality that is a number or a string.
\<close>

definition show_opt_number :: "Helpers \<Rightarrow> number option \<Rightarrow> string" where
  "show_opt_number H n = (case n of None \<Rightarrow> ''undefined'' | Some x \<Rightarrow> numberToString H x)"

definition show_expr :: "Helpers \<Rightarrow> VgExpr \<Rightarrow> string" where
  "show_expr H e = (case e of Str s \<Rightarrow> s | Num n \<Rightarrow> numberToString H n)"

text \<open>A \<open>reduce\<close> over an array whose callback may fault.\<close>

fun reduce_err :: "('a \<Rightarrow> 'b \<Rightarrow> error + 'a) \<Rightarrow> 'b list \<Rightarrow> 'a \<Rightarrow> error + 'a" where
  "reduce_err f [] acc = Inr acc"
| "reduce_err f (x # xs) acc = (case f acc x of Inl e \<Rightarrow> Inl e | Inr acc' \<Rightarrow> reduce_err f xs acc')"

definition cardinalityFormula :: "Helpers \<Rightarrow> Model \<Rightarrow> Channel \<Rightarrow> error + VgExpr" where
  "cardinalityFormula H model channel =
     (case model_scale model channel of
        None \<Rightarrow> Inl TypeError
      | Some scale \<Rightarrow>
         (case sc_domain scale of
            Some d \<Rightarrow> Inr (Num (real (length d)))
          | None \<Rightarrow>
             (let timeUnit = fd_timeUnit (model_fieldDef model channel);
                  timeUnitDomain = (if truthy_opt_string timeUnit
                                    then rawDomain H (the timeUnit) channel else None)
              in case timeUnitDomain of
                   Some d \<Rightarrow> Inr (Num (real (length d)))
                 | None \<Rightarrow> Inr (Str (model_field model channel
                                       (no_opt\<lparr>datum := True, prefn := Some ''distinct_''\<rparr>))))))"

definition scaleWidthFormula :: "Helpers \<Rightarrow> Model \<Rightarrow> Channel \<Rightarrow> number \<Rightarrow> error + VgExpr" where
  "scaleWidthFormula H model channel nonOrdinalSize =
     (if has model channel then
        (if isOrdinalScale model channel then
           (case cardinalityFormula H model channel of
              Inl e \<Rightarrow> Inl e
            | Inr cardinality \<Rightarrow>
               (case model_scale model channel of
                  None \<Rightarrow> Inl TypeError
                | Some scale \<Rightarrow>
                   Inr (Str (''('' @ show_expr H cardinality @ '' + '' @
                             show_opt_number H (sc_padding scale) @
                             '') * '' @ show_opt_number H (sc_bandWidth scale)))))
         else Inr (Num nonOrdinalSize))
      else (if mark model = TEXT_MARK \<and> channel = X then Inr (Num 90) else Inr (Num 21)))"

definition facetScaleWidthFormula :: "Helpers \<Rightarrow> Model \<Rightarrow> Channel \<Rightarrow> string \<Rightarrow> error + VgExpr" where
  "facetScaleWidthFormula H model channel innerWidth =
     (case model_scale model channel of
        None \<Rightarrow> Inl TypeError
      | Some scale \<Rightarrow>
         (if has model channel then
            (let cardinality = (case sc_domain scale of
                                  Some d \<Rightarrow> numberToString H (real (length d))
                                | None \<Rightarrow> model_field model channel
                                           (no_opt\<lparr>datum := True, prefn := Some ''distinct_''\<rparr>))
             in Inr (Str (''('' @ innerWidth @ '' + '' @ show_opt_number H (sc_padding scale) @ '')'' @
                          '' * '' @ cardinality)))
          else Inr (Str (innerWidth @ '' + '' @ show_opt_number H (sc_padding scale)))))"

definition layout_def :: "Helpers \<Rightarrow> Model \<Rightarrow> error + VgData" where
  "layout_def H model =
     (case reduce_err (\<lambda>summary channel.
              if has model channel \<and> isOrdinalScale model channel then
                (case model_scale model channel of
                   None \<Rightarrow> Inl TypeError
                 | Some scale \<Rightarrow>
                    (if sc_domain scale = None
                     then Inr (summary @ [(model_field model channel no_opt, [''distinct''])])
                     else Inr summary))
              else Inr summary) [X, Y, ROW, COLUMN] [] of
        Inl e \<Rightarrow> Inl e
      | Inr distinctSummary \<Rightarrow>
     (case scaleWidthFormula H model X (unit_width (config_unit model)) of
        Inl e \<Rightarrow> Inl e
      | Inr cellWidthFormula \<Rightarrow>
     (case scaleWidthFormula H model Y (unit_height (config_unit model)) of
        Inl e \<Rightarrow> Inl e
      | Inr cellHeightFormula \<Rightarrow>
     (let isFacet = (has model COLUMN \<or> has model ROW) in
      case (if isFacet then facetScaleWidthFormula H model COLUMN ''datum.cellWidth''
            else Inr cellWidthFormula) of
        Inl e \<Rightarrow> Inl e
      | Inr widthExpr \<Rightarrow>
     (case (if isFacet then facetScaleWidthFormula H model ROW ''datum.cellHeight''
            else Inr cellWidthFormula) of
        Inl e \<Rightarrow> Inl e
      | Inr heightExpr \<Rightarrow>
     (let formulas = [VgFormula ''cellWidth'' cellWidthFormula,
                      VgFormula ''cellHeight'' cellHeightFormula,
                      VgFormula ''width'' widthExpr,
                      VgFormula ''height'' heightExpr]
      in if length distinctSummary > 0 then
           Inr \<lparr>name = LAYOUT, source = Some (model_dataTable model), vg_values = None,
                format = None, url = None,
                transform = [] @ [VgAggregate None (SummarizeList distinctSummary)] @ formulas\<rparr>
         else
           Inr \<lparr>name = LAYOUT, source = None, vg_values = Some EmptyRow,
                format = None, url = None, transform = formulas\<rparr>))))))"

section \<open>The summary dataset (namespace summary)\<close>

text \<open>
  The callback of \<open>summary.def\<close>, on the three variables it assigns: the dimensions
  \<open>dims\<close>, the measures \<open>meas\<close> and the flag \<open>hasAggregate\<close>. In
  \<open>meas[k] = meas[k] || {}\<close> a key that \<open>meas\<close> does not own reads as the empty object; where
  the key names an inherited property the value read is a built-in function or the
  prototype, which has no enumerable property when the compiler starts. For the key
  \<open>__proto__\<close> the flag is then set on the prototype and \<open>meas\<close> gets no key; the prototype
  is no part of \<open>dims\<close>, \<open>meas\<close> or the flag, and is not followed further.
\<close>

definition summary_step ::
  "Helpers \<Rightarrow> Model \<Rightarrow>
   string js_object \<times> bool js_object js_object \<times> bool \<Rightarrow> FieldDef \<Rightarrow> Channel \<Rightarrow>
   string js_object \<times> bool js_object js_object \<times> bool" where
  "summary_step H model = (\<lambda>(dims, meas, hasAggregate) fieldDef channel.
     if truthy_opt_string (fd_aggregate fieldDef) then
       (if fd_aggregate fieldDef = Some ''count'' then
          (dims,
           object_set meas ''*''
             (object_set (case own_property meas ''*'' of None \<Rightarrow> empty_object | Some fns \<Rightarrow> fns)
                ''count'' True),
           True)
        else
          (dims,
           object_set meas (fd_field fieldDef)
             (object_set (case own_property meas (fd_field fieldDef) of
                            None \<Rightarrow> empty_object | Some fns \<Rightarrow> fns)
                (the (fd_aggregate fieldDef)) True),
           True))
     else
       (if truthy_bin (fd_bin fieldDef) then
          (let dims = object_set dims (field H fieldDef (no_opt\<lparr>binSuffix := Some ''_start''\<rparr>))
                        (field H fieldDef (no_opt\<lparr>binSuffix := Some ''_start''\<rparr>));
               dims = object_set dims (field H fieldDef (no_opt\<lparr>binSuffix := Some ''_mid''\<rparr>))
                        (field H fieldDef (no_opt\<lparr>binSuffix := Some ''_mid''\<rparr>));
               dims = object_set dims (field H fieldDef (no_opt\<lparr>binSuffix := Some ''_end''\<rparr>))
                        (field H fieldDef (no_opt\<lparr>binSuffix := Some ''_end''\<rparr>));
               scale = model_scale model channel
           in if scaleType H scale fieldDef channel (mark model) = ''ordinal'' then
                (object_set dims (field H fieldDef (no_opt\<lparr>binSuffix := Some ''_range''\<rparr>))
                   (field H fieldDef (no_opt\<lparr>binSuffix := Some ''_range''\<rparr>)),
                 meas, hasAggregate)
              else (dims, meas, hasAggregate))
        else
          (object_set dims (field H fieldDef no_opt) (field H fieldDef no_opt), meas, hasAggregate)))"

definition summary_def :: "Helpers \<Rightarrow> Model \<Rightarrow> VgData option" where
  "summary_def H model =
     (case reduce model (summary_step H model) (empty_object, empty_object, False) of
        (dims, meas, hasAggregate) \<Rightarrow>
          (let groupby = vals dims;
               summarize = fold (\<lambda>(field, fnDictSet) aggregator.
                             object_set aggregator field (keys fnDictSet)) (entries meas) empty_object
           in if hasAggregate then
                Some \<lparr>name = SUMMARY, source = Some SOURCE, vg_values = None, format = None,
                      url = None,
                      transform = [VgAggregate (Some groupby) (SummarizeMap (entries summarize))]\<rparr>
              else None))"

section \<open>The stacked-scale dataset (namespace stack)\<close>

definition stack_def :: "Model \<Rightarrow> StackProperties \<Rightarrow> VgData" where
  "stack_def model stackProps =
     (let groupbyChannel = groupbyChannel stackProps;
          fieldChannel = fieldChannel stackProps;
          facetFields = (if has model COLUMN then [model_field model COLUMN no_opt] else []) @
                        (if has model ROW then [model_field model ROW no_opt] else [])
      in \<lparr>name = STACKED_SCALE, source = Some (model_dataTable model), vg_values = None,
           format = None, url = None,
           transform = [VgAggregate (Some ([model_field model groupbyChannel no_opt] @ facetFields))
                          (SummarizeList [(model_field model fieldChannel no_opt, [''sum''])])]\<rparr>)"

section \<open>The time-domain datasets (namespace dates)\<close>

text \<open>
  The callback of \<open>dates.defs\<close>, on \<open>alreadyAdded\<close> and the accumulated array. The keys
  of \<open>alreadyAdded\<close> are time units, names of the schema's enumeration (\<open>year\<close>, \<open>month\<close>,
  ...): none is an array index or a property of \<open>Object.prototype\<close>, and the object is only
  read by key, so it is held as the list of the units flagged.
\<close>

definition dates_step ::
  "Helpers \<Rightarrow> (string \<times> bool) list \<times> VgData list \<Rightarrow> FieldDef \<Rightarrow> Channel \<Rightarrow>
   (string \<times> bool) list \<times> VgData list" where
  "dates_step H = (\<lambda>(alreadyAdded, aggregator) fieldDef channel.
     if truthy_opt_string (fd_timeUnit fieldDef) then
       (let timeUnit = the (fd_timeUnit fieldDef);
            domain = rawDomain H timeUnit channel
        in if domain \<noteq> None \<and> map_of alreadyAdded timeUnit \<noteq> Some True then
             (dict_set alreadyAdded timeUnit True,
              aggregator @
                [\<lparr>name = timeUnit, source = None, vg_values = Some (Enumeration (the domain)),
                  format = None, url = None,
                  transform = [VgFormula ''date''
                                 (Str (parseExpression H timeUnit ''datum.data'' True))]\<rparr>])
           else (alreadyAdded, aggregator))
     else (alreadyAdded, aggregator))"

definition dates_defs :: "Helpers \<Rightarrow> Model \<Rightarrow> VgData list" where
  "dates_defs H model = snd (reduce model (dates_step H) ([], []))"

section \<open>The post-processors and compileData\<close>

definition rankTransform :: "VgData \<Rightarrow> Model \<Rightarrow> VgData" where
  "rankTransform dataTable model =
     (if has model COLOR \<and> fd_type (model_fieldDef model COLOR) = ORDINAL then
        dataTable\<lparr>transform := transform dataTable @
          [VgSort (model_field model COLOR no_opt),
           VgRank (model_field model COLOR no_opt)
                  (model_field model COLOR (no_opt\<lparr>prefn := Some ''rank_''\<rparr>))]\<rparr>
      else dataTable)"

definition filterNonPositiveForLog :: "VgData \<Rightarrow> Model \<Rightarrow> VgData" where
  "filterNonPositiveForLog dataTable model =
     reduce model (\<lambda>dataTable _ channel.
       let scale = model_scale model channel
       in if (case scale of None \<Rightarrow> False | Some sc \<Rightarrow> sc_type sc = Some ''log'') then
            dataTable\<lparr>transform := transform dataTable @
              [VgFilter (model_field model channel (no_opt\<lparr>datum := True\<rparr>) @ '' > 0'')]\<rparr>
          else dataTable) dataTable"

text \<open>
  \<open>compileData\<close> in three parts, in the order of its statements: the running list after
  the source and summary datasets are pushed; the list after the two post-processors have
  run on its last element; the final list.
\<close>

definition compileData_assembled :: "Helpers \<Rightarrow> Model \<Rightarrow> VgData list" where
  "compileData_assembled H model =
     (let def = [source_def H model];
          summaryDef = summary_def H model
      in case summaryDef of Some s \<Rightarrow> def @ [s] | None \<Rightarrow> def)"

definition compileData_postprocessed :: "Helpers \<Rightarrow> Model \<Rightarrow> VgData list" where
  "compileData_postprocessed H model =
     (let def = compileData_assembled H model;
          def = def[length def - 1 := rankTransform (def ! (length def - 1)) model];
          def = def[length def - 1 := filterNonPositiveForLog (def ! (length def - 1)) model]
      in def)"

definition compileData :: "Helpers \<Rightarrow> Model \<Rightarrow> error + VgData list" where
  "compileData H model =
     (let def = compileData_postprocessed H model
      in case layout_def H model of
           Inl e \<Rightarrow> Inl e
         | Inr layoutDef \<Rightarrow>
            (let def = def @ [layoutDef];
                 stackDef = model_stack model;
                 def = (case stackDef of Some sp \<Rightarrow> def @ [stack_def model sp] | None \<Rightarrow> def)
             in Inr (def @ dates_defs H model)))"

section \<open>Example models\<close>

text \<open>Modelled from the spec: an instance of the imported helpers, to run the compiler on the
  example models below; no theorem about all models depends on it. A field reference is the
  field name with the optional \<open>datum.\<close> and function prefix, and a binned field carries its
  bin suffix (\<open><field>_start\<close>, ...); month-of-year and day-of-week are the bounded time
  units, with 12 and 7 values. Numbers print in decimal digits, as whole numbers below
  1e21 do; the examples hold no other number.
\<close>

definition example_helpers :: Helpers where
  "example_helpers =
     \<lparr>field = (\<lambda>fieldDef opt.
        (if datum opt then ''datum.'' else []) @ (case prefn opt of Some p \<Rightarrow> p | None \<Rightarrow> []) @
        fd_field fieldDef @
        (if truthy_bin (fd_bin fieldDef) \<and> \<not> nofn opt
         then (case binSuffix opt of Some s \<Rightarrow> s | None \<Rightarrow> ''_start'') else [])),
      isCount = (\<lambda>fieldDef. fd_aggregate fieldDef = Some ''count''),
      autoMaxBins = (\<lambda>channel. 10),
      scaleType = (\<lambda>scale fieldDef channel mark.
        case Option.bind scale sc_type of
          Some t \<Rightarrow> t
        | None \<Rightarrow> (case fd_type fieldDef of
                     NOMINAL \<Rightarrow> ''ordinal'' | ORDINAL \<Rightarrow> ''ordinal''
                   | QUANTITATIVE \<Rightarrow> ''linear'' | TEMPORAL \<Rightarrow> ''time'')),
      parseExpression = (\<lambda>timeUnit ref onlyRef. timeUnit @ ''('' @ ref @ '')''),
      rawDomain = (\<lambda>timeUnit channel.
        if timeUnit = ''month'' then Some [0, 1, 2, 3, 4, 5, 6, 7, 8, 9, 10, 11]
        else if timeUnit = ''day'' then Some [0, 1, 2, 3, 4, 5, 6]
        else None),
      numberToString = (\<lambda>n. if n < 0 then ''-'' @ show_digits (- \<lfloor>n\<rfloor>) else show_digits \<lfloor>n\<rfloor>)\<rparr>"

text \<open>Modelled from the spec: a model over an encoding, the list of bound channels in scan order,
  each with its field definition and scale. A channel is present when the encoding binds it,
  and the model's field reference of a channel is the helper's, on the channel's field
  definition. The data table is the summary when some field is aggregated.
\<close>

definition example_model ::
  "string \<Rightarrow> bool option \<Rightarrow> (Channel \<times> FieldDef \<times> Scale) list \<Rightarrow> Model" where
  "example_model m fnull encoding =
     \<lparr>has = (\<lambda>channel. map_of encoding channel \<noteq> None),
      model_fieldDef = (\<lambda>channel. case map_of encoding channel of
         Some (fieldDef, scale) \<Rightarrow> fieldDef
       | None \<Rightarrow> \<lparr>fd_field = [], fd_type = NOMINAL, fd_aggregate = None, fd_bin = None,
                  fd_timeUnit = None\<rparr>),
      model_scale = (\<lambda>channel. map_option snd (map_of encoding channel)),
      model_field = (\<lambda>channel opt. case map_of encoding channel of
         Some (fieldDef, scale) \<Rightarrow> field example_helpers fieldDef opt
       | None \<Rightarrow> []),
      isOrdinalScale = (\<lambda>channel. case map_of encoding channel of
         Some (fieldDef, scale) \<Rightarrow>
           scaleType example_helpers (Some scale) fieldDef channel m = ''ordinal''
       | None \<Rightarrow> False),
      mark = m,
      model_transform = \<lparr>filterNull = fnull, calculate = None, filter_expr = None\<rparr>,
      config_unit = \<lparr>unit_width = 200, unit_height = 200\<rparr>,
      hasValues = False,
      model_data = \<lparr>data_values = None, data_url = Some ''data/cars.json'',
                     data_formatType = Some ''json''\<rparr>,
      model_dataTable =
        (if list_ex (\<lambda>(channel, fieldDef, scale). truthy_opt_string (fd_aggregate fieldDef)) encoding
         then SUMMARY else SOURCE),
      model_stack = None,
      channelDefs = map (\<lambda>(channel, fieldDef, scale). (fieldDef, channel)) encoding\<rparr>"

definition plain_field :: "string \<Rightarrow> Type \<Rightarrow> FieldDef" where
  "plain_field f t =
     \<lparr>fd_field = f, fd_type = t, fd_aggregate = None, fd_bin = None, fd_timeUnit = None\<rparr>"

definition plain_scale :: "string \<Rightarrow> Scale" where
  "plain_scale t =
     \<lparr>sc_type = Some t, sc_domain = None, sc_padding = Some 1, sc_bandWidth = Some 21\<rparr>"


text \<open>A bar chart of one quantitative field on x, with nothing on y, row or column.\<close>

definition example_bar :: Model where
  "example_bar = example_model ''bar'' None [(X, plain_field ''a'' QUANTITATIVE, plain_scale ''linear'')]"

text \<open>A point chart with a log scale on x and an ordinal field on color.\<close>

definition example_log_color :: Model where
  "example_log_color = example_model ''point'' None
     [(X, plain_field ''a'' QUANTITATIVE, plain_scale ''log''),
      (Y, plain_field ''b'' QUANTITATIVE, plain_scale ''linear''),
      (COLOR, plain_field ''c'' ORDINAL, plain_scale ''ordinal'')]"

text \<open>What \<open>compileData\<close> returns for it: the source dataset and the layout dataset.\<close>

definition example_log_color_output :: "VgData list" where
  "example_log_color_output =
     [\<lparr>name = ''source'', source = None, vg_values = None,
       format = Some \<lparr>format_type = Some ''json'',
                       format_parse = Some [(''a'', ''number''), (''b'', ''number'')]\<rparr>,
       url = Some ''data/cars.json'',
       transform = [VgFilter ''datum.a!==null && datum.b!==null'', VgSort ''c'',
                    VgRank ''c'' ''rank_c'', VgFilter ''datum.a > 0'']\<rparr>,
      \<lparr>name = ''layout'', source = None, vg_values = Some EmptyRow, format = None, url = None,
       transform = [VgFormula ''cellWidth'' (Num 200), VgFormula ''cellHeight'' (Num 200),
                    VgFormula ''width'' (Num 200), VgFormula ''height'' (Num 200)]\<rparr>]"





section \<open>Notions used to state the properties\<close>

text \<open>
  The order in which an object enumerates the keys assigned to it in turn: the array
  indices ascending, each once, then the other keys by first occurrence; \<open>__proto__\<close> is
  not among them.
\<close>

definition property_order :: "string list \<Rightarrow> string list" where
  "property_order ks =
     map show_digits (sort (remdups (map digits_value (filter is_array_index ks)))) @
     firsts (filter (\<lambda>k. \<not> is_array_index k \<and> k \<noteq> ''__proto__'') ks)"

text \<open>The keys of the indexed properties after an assignment.\<close>

fun key_insert :: "int list \<Rightarrow> int \<Rightarrow> int list" where
  "key_insert [] n = [n]"
| "key_insert (m # ms) n = (if n < m then n # m # ms else if n = m then n # ms else m # key_insert ms n)"

text \<open>
  The names that one scanned field definition adds to the dimensions of the summary: none
  when it is aggregated; the bin names when it is binned; else its field reference.
\<close>

definition dims_of :: "Helpers \<Rightarrow> Model \<Rightarrow> FieldDef \<times> Channel \<Rightarrow> string list" where
  "dims_of H model = (\<lambda>(fieldDef, channel).
     if truthy_opt_string (fd_aggregate fieldDef) then []
     else if truthy_bin (fd_bin fieldDef) then
       [field H fieldDef (no_opt\<lparr>binSuffix := Some ''_start''\<rparr>),
        field H fieldDef (no_opt\<lparr>binSuffix := Some ''_mid''\<rparr>),
        field H fieldDef (no_opt\<lparr>binSuffix := Some ''_end''\<rparr>)] @
       (if scaleType H (model_scale model channel) fieldDef channel (mark model) = ''ordinal''
        then [field H fieldDef (no_opt\<lparr>binSuffix := Some ''_range''\<rparr>)] else [])
     else [field H fieldDef no_opt])"

text \<open>
  The occurrences, in scan order, of a time unit on a channel where it has a raw domain,
  each with that domain; and the dataset of a time unit with a domain.
\<close>

definition dated :: "Helpers \<Rightarrow> (FieldDef \<times> Channel) list \<Rightarrow> (string \<times> number list) list" where
  "dated H xs = map (\<lambda>(fieldDef, channel). (the (fd_timeUnit fieldDef),
                       the (rawDomain H (the (fd_timeUnit fieldDef)) channel)))
     (filter (\<lambda>(fieldDef, channel). truthy_opt_string (fd_timeUnit fieldDef) \<and>
                rawDomain H (the (fd_timeUnit fieldDef)) channel \<noteq> None) xs)"

definition date_table :: "Helpers \<Rightarrow> string \<Rightarrow> number list \<Rightarrow> VgData" where
  "date_table H timeUnit domain =
     \<lparr>name = timeUnit, source = None, vg_values = Some (Enumeration domain),
      format = None, url = None,
      transform = [VgFormula ''date'' (Str (parseExpression H timeUnit ''datum.data'' True))]\<rparr>"

text \<open>The transforms that only the rank post-processor emits.\<close>

fun is_sort_or_rank :: "VgTransform \<Rightarrow> bool" where
  "is_sort_or_rank (VgSort _) = True"
| "is_sort_or_rank (VgRank _ _) = True"
| "is_sort_or_rank _ = False"

text \<open>
  The condition, the two transforms and the filters of the post-processors, and the dataset
  they are run on: the summary dataset when there is one, else the source dataset.
\<close>

definition ordinal_color :: "Model \<Rightarrow> bool" where
  "ordinal_color model = (has model COLOR \<and> fd_type (model_fieldDef model COLOR) = ORDINAL)"

definition rank_transforms :: "Model \<Rightarrow> VgTransform list" where
  "rank_transforms model =
     [VgSort (model_field model COLOR no_opt),
      VgRank (model_field model COLOR no_opt) (model_field model COLOR (no_opt\<lparr>prefn := Some ''rank_''\<rparr>))]"

definition log_filters :: "Model \<Rightarrow> VgTransform list" where
  "log_filters model =
     map (\<lambda>channel. VgFilter (model_field model channel (no_opt\<lparr>datum := True\<rparr>) @ '' > 0''))
       (filter (\<lambda>channel. Option.bind (model_scale model channel) sc_type = Some ''log'')
          (map snd (channelDefs model)))"

definition target :: "Helpers \<Rightarrow> Model \<Rightarrow> VgData" where
  "target H model = (case summary_def H model of Some summaryDef \<Rightarrow> summaryDef | None \<Rightarrow> source_def H model)"

abbreviation plain :: "VgTransform list \<Rightarrow> bool" where
  "plain ts \<equiv> list_all (\<lambda>t. \<not> is_sort_or_rank t) ts"

section \<open>Properties\<close>

subsection \<open>Folds over the channels\<close>

lemma reduce_append:
  "reduce model (\<lambda>acc fd c. acc @ g fd c) init =
     init @ concat (map (\<lambda>(fd, c). g fd c) (channelDefs model))"
proof -
  have "fold (\<lambda>(fd, c) acc. acc @ g fd c) xs init = init @ concat (map (\<lambda>(fd, c). g fd c) xs)" for xs
    by (induction xs arbitrary: init) auto
  then show ?thesis by (simp add: reduce_def)
qed

lemma fold_append_transform:
  "fold (\<lambda>(fd, c) d. if Q c then d\<lparr>transform := transform d @ [g c]\<rparr> else d) xs (d :: VgData) =
     d\<lparr>transform := transform d @ map g (filter Q (map snd xs))\<rparr>"
  by (induction xs arbitrary: d) auto

lemma firsts_snoc: "firsts (xs @ [x]) = (if x \<in> set xs then firsts xs else firsts xs @ [x])"
  by (simp add: firsts_def)

lemma set_firsts: "set (firsts xs) = set xs"
  by (simp add: firsts_def)

lemma distinct_firsts: "distinct (firsts xs)"
  by (simp add: firsts_def)

lemma dict_set_new: "k \<notin> fst ` set d \<Longrightarrow> dict_set d k v = d @ [(k, v)]"
  by (induction d) auto

subsection \<open>The enumeration order of an object\<close>

lemma map_fst_dict_set:
  "map fst (dict_set d k v) = (if k \<in> fst ` set d then map fst d else map fst d @ [k])"
  by (induction d) force+

lemma index_set_key_insert: "map fst (index_set d n v) = key_insert (map fst d) n"
  by (induction d) auto

lemma set_key_insert: "set (key_insert ms n) = insert n (set ms)"
  by (induction ms) auto

lemma sorted_key_insert: "sorted_wrt (<) ms \<Longrightarrow> sorted_wrt (<) (key_insert ms n)"
  by (induction ms) (auto simp: set_key_insert)

lemma index_set_strict:
  "sorted_wrt (<) (map fst d) \<Longrightarrow>
     sorted_wrt (<) (map fst (index_set d n v)) \<and> set (map fst (index_set d n v)) = insert n (set (map fst d))"
  unfolding index_set_key_insert by (simp only: sorted_key_insert set_key_insert)

lemma index_set_keys:
  assumes "map fst d = sort (remdups ns)"
  shows "map fst (index_set d n v) = sort (remdups (ns @ [n]))"
proof (rule sorted_distinct_set_unique)
  have s: "sorted_wrt (<) (map fst d)"
    unfolding assms by (simp add: strict_sorted_iff)
  note r = index_set_strict [OF s, of n v]
  show "sorted (map fst (index_set d n v))" using r by (simp add: strict_sorted_iff)
  show "distinct (map fst (index_set d n v))" using r by (simp add: strict_sorted_iff)
  show "sorted (sort (remdups (ns @ [n])))" by (rule sorted_sort)
  show "distinct (sort (remdups (ns @ [n])))" by (simp only: distinct_sort distinct_remdups)
  have "set (map fst (index_set d n v)) = insert n (set (map fst d))" using r by blast
  also have "\<dots> = insert n (set ns)" by (simp only: assms set_sort set_remdups)
  also have "\<dots> = set (sort (remdups (ns @ [n])))" by (simp only: set_sort set_remdups set_append) simp
  finally show "set (map fst (index_set d n v)) = set (sort (remdups (ns @ [n])))" .
qed

lemma not_index_proto: "\<not> is_array_index ''__proto__''"
  by (simp add: is_array_index_def is_digit_def)

lemma named_step:
  assumes "map fst d = firsts (filter Q ks)" and "Q k"
  shows "map fst (dict_set d k v) = firsts (filter Q (ks @ [k]))"
proof -
  have "fst ` set d = set (filter Q ks)"
    using assms(1) by (metis set_map set_firsts)
  then show ?thesis
    using assms by (simp add: map_fst_dict_set firsts_snoc)
qed

lemma fold_object_set_parts:
  "map fst (fst (fold (\<lambda>x obj. object_set obj (k x) (v x)) xs empty_object)) =
     sort (remdups (map digits_value (filter is_array_index (map k xs)))) \<and>
   map fst (snd (fold (\<lambda>x obj. object_set obj (k x) (v x)) xs empty_object)) =
     firsts (filter (\<lambda>k. \<not> is_array_index k \<and> k \<noteq> ''__proto__'') (map k xs))"
proof (induction xs rule: rev_induct)
  case Nil
  show ?case by (simp add: empty_object_def firsts_def)
next
  case (snoc x xs)
  let ?obj = "fold (\<lambda>x obj. object_set obj (k x) (v x)) xs empty_object"
  have step: "fold (\<lambda>x obj. object_set obj (k x) (v x)) (xs @ [x]) empty_object = object_set ?obj (k x) (v x)"
    by simp
  from snoc have i: "map fst (fst ?obj) = sort (remdups (map digits_value (filter is_array_index (map k xs))))"
    and n: "map fst (snd ?obj) = firsts (filter (\<lambda>k. \<not> is_array_index k \<and> k \<noteq> ''__proto__'') (map k xs))"
    by blast+
  consider (proto) "k x = ''__proto__''" | (index) "is_array_index (k x)"
    | (named) "\<not> is_array_index (k x)" "k x \<noteq> ''__proto__''" by blast
  then show ?case
  proof cases
    case proto
    then show ?thesis
      unfolding step using i n by (simp add: object_set_def not_index_proto)
  next
    case index
    then have np: "k x \<noteq> ''__proto__''" using not_index_proto by auto
    show ?thesis
      unfolding step using index np n index_set_keys [OF i, of "digits_value (k x)" "v x"]
      by (simp add: object_set_def)
  next
    case named
    show ?thesis
      unfolding step using named i named_step [OF n, of "k x" "v x"]
      by (simp add: object_set_def)
  qed
qed

lemma keys_parts: "keys obj = map show_digits (map fst (fst obj)) @ map fst (snd obj)"
  by (simp add: keys_def entries_def case_prod_unfold comp_def)

lemma keys_fold_object_set:
  "keys (fold (\<lambda>x obj. object_set obj (k x) (v x)) xs empty_object) = property_order (map k xs)"
  unfolding keys_parts property_order_def
  using fold_object_set_parts [of k v xs] by simp

lemma show_index: "is_array_index k \<Longrightarrow> show_digits (digits_value k) = k"
  by (simp add: is_array_index_def)





lemma entries_object_set:
  "set (entries (object_set obj k v)) \<subseteq> insert (k, v) (set (entries obj))"
proof -
  have i: "set (index_set d n w) \<subseteq> insert (n, w) (set d)" for d :: "(int \<times> 'a) list" and n w
    by (induction d) (auto split: if_splits)
  have n: "set (dict_set d k' w) \<subseteq> insert (k', w) (set d)" for d :: "(string \<times> 'a) list" and k' w
    by (induction d) (auto split: if_splits)
  show ?thesis
  proof (cases "k = ''__proto__''")
    case True
    then show ?thesis by (auto simp: object_set_def)
  next
    case False
    show ?thesis
    proof (cases "is_array_index k")
      case True
      have "set (map (\<lambda>(n, v). (show_digits n, v)) (index_set (fst obj) (digits_value k) v)) \<subseteq>
            insert (show_digits (digits_value k), v) (set (map (\<lambda>(n, v). (show_digits n, v)) (fst obj)))"
        using i [of "fst obj" "digits_value k" v] by auto
      with True False show ?thesis
        by (auto simp: object_set_def entries_def show_index)
    next
      case nidx: False
      with False n [of "snd obj" k v] show ?thesis
        by (auto simp: object_set_def entries_def)
    qed
  qed
qed

lemma vals_fold_diagonal:
  "vals (fold (\<lambda>k obj. object_set obj k k) ks obj0) = keys (fold (\<lambda>k obj. object_set obj k k) ks obj0)"
  if "\<forall>(k, v) \<in> set (entries obj0). v = k"
proof -
  have "\<forall>(k, v) \<in> set (entries (fold (\<lambda>k obj. object_set obj k k) ks obj0)). v = k"
  proof (induction ks rule: rev_induct)
    case Nil
    show ?case using that by simp
  next
    case (snoc k ks)
    then show ?case
      using entries_object_set [of "fold (\<lambda>k obj. object_set obj k k) ks obj0" k k]
      by auto
  qed
  then have "map snd es = map fst es"
    if "es = entries (fold (\<lambda>k obj. object_set obj k k) ks obj0)" for es
    using that by (intro map_cong) auto
  then show ?thesis by (simp add: vals_def keys_def)
qed

subsection \<open>The source dataset\<close>

text \<open>
  C3. The transform list of the dataset that \<open>source.def\<close> returns is the concatenation of
  the five stages in the order null filter, formula, filter, bin, time unit, each stage
  possibly empty; so no transform of a stage stands before a transform of an earlier stage.
\<close>

theorem source_transform_order:
  "transform (source_def H model) =
     nullFilterTransform model @ formulaTransform model @ filterTransform model @
     binTransform H model @ timeTransform H model"
  by (simp add: source_def_def Let_def source_transform_def split: option.split)









text \<open>
  C8. \<open>binTransform\<close> is the concatenation, over the channels scanned, of one block per
  channel whose field definition declares binning, and nothing for the other channels. The
  block starts with the bin transform on the field; its output names are the field references
  of the field definition with the suffixes \<open>_start\<close>, \<open>_mid\<close> and \<open>_end\<close>; its
  \<open>maxbins\<close> is \<open>autoMaxBins\<close> of the channel when the bin specification gives neither
  \<open>maxbins\<close> nor \<open>step\<close> (\<open>bin: true\<close> gives neither). The formula for the \<open>_range\<close>
  label, built from the \<open>_start\<close> and \<open>_end\<close> references, follows the bin transform at once
  exactly when the scale type of the channel is ordinal or the channel is color.
\<close>

theorem binTransform_blocks:
  "binTransform H model =
     concat (map (\<lambda>(fieldDef, channel).
       if truthy_bin (fd_bin (model_fieldDef model channel)) then
         [VgBin (fd_field fieldDef)
            \<lparr>out_start = field H fieldDef (no_opt\<lparr>binSuffix := Some ''_start''\<rparr>),
             out_mid = field H fieldDef (no_opt\<lparr>binSuffix := Some ''_mid''\<rparr>),
             out_end = field H fieldDef (no_opt\<lparr>binSuffix := Some ''_end''\<rparr>)\<rparr>
            (case fd_bin (model_fieldDef model channel) of
               Some (BinObject b) \<Rightarrow>
                 if \<not> truthy_number (maxbins b) \<and> \<not> truthy_number (step b)
                 then Some (autoMaxBins H channel) else maxbins b
             | _ \<Rightarrow> Some (autoMaxBins H channel))
            (case fd_bin (model_fieldDef model channel) of Some (BinObject b) \<Rightarrow> step b | _ \<Rightarrow> None)
            (case fd_bin (model_fieldDef model channel) of Some (BinObject b) \<Rightarrow> bin_params b | _ \<Rightarrow> [])] @
         (if scaleType H (model_scale model channel) fieldDef channel (mark model) = ''ordinal'' \<or>
             channel = COLOR
          then [VgFormula (field H fieldDef (no_opt\<lparr>binSuffix := Some ''_range''\<rparr>))
                  (Str (field H fieldDef (no_opt\<lparr>datum := True, binSuffix := Some ''_start''\<rparr>) @
                        '' + '' @ [CHR 0x27] @ ''-'' @ [CHR 0x27] @ '' + '' @
                        field H fieldDef (no_opt\<lparr>datum := True, binSuffix := Some ''_end''\<rparr>)))]
          else [])
       else []) (channelDefs model))"
    (is "_ = concat (map (\<lambda>(fieldDef, channel). ?g fieldDef channel) _)")
proof -
  have step: "binTransform_step H model = (\<lambda>acc fd c. acc @ ?g fd c)"
    by (intro ext) (simp add: binTransform_step_def Let_def split: option.splits BinSpec.splits)
  show ?thesis
    unfolding binTransform_def step by (simp add: reduce_append)
qed

subsection \<open>The summary dataset\<close>

lemma summary_step_dims:
  "fst (summary_step H model (dims, meas, h) fd c) =
     fold (\<lambda>k obj. object_set obj k k) (dims_of H model (fd, c)) dims"
  by (simp add: summary_step_def dims_of_def Let_def)

lemma summary_step_flag:
  "snd (snd (summary_step H model (dims, meas, h) fd c)) = (h \<or> truthy_opt_string (fd_aggregate fd))"
  by (simp add: summary_step_def Let_def)

lemma summary_fold:
  "\<exists>meas. fold (\<lambda>(fieldDef, channel) acc. summary_step H model acc fieldDef channel) xs
            (empty_object, empty_object, False) =
     (fold (\<lambda>k obj. object_set obj k k) (concat (map (dims_of H model) xs)) empty_object, meas,
      list_ex (\<lambda>(fieldDef, channel). truthy_opt_string (fd_aggregate fieldDef)) xs)"
proof (induction xs rule: rev_induct)
  case Nil
  show ?case by simp
next
  case (snoc x xs)
  obtain fd c where x: "x = (fd, c)" by (cases x)
  from snoc obtain meas where
    ih: "fold (\<lambda>(fieldDef, channel) acc. summary_step H model acc fieldDef channel) xs
            (empty_object, empty_object, False) =
     (fold (\<lambda>k obj. object_set obj k k) (concat (map (dims_of H model) xs)) empty_object, meas,
      list_ex (\<lambda>(fieldDef, channel). truthy_opt_string (fd_aggregate fieldDef)) xs)" by blast
  let ?s = "summary_step H model
      (fold (\<lambda>k obj. object_set obj k k) (concat (map (dims_of H model) xs)) empty_object, meas,
       list_ex (\<lambda>(fieldDef, channel). truthy_opt_string (fd_aggregate fieldDef)) xs) fd c"
  have "fold (\<lambda>(fieldDef, channel) acc. summary_step H model acc fieldDef channel) (xs @ [x])
          (empty_object, empty_object, False) = ?s"
    by (simp add: x ih)
  moreover have "?s = (fst ?s, fst (snd ?s), snd (snd ?s))" by simp
  ultimately have "fold (\<lambda>(fieldDef, channel) acc. summary_step H model acc fieldDef channel) (xs @ [x])
          (empty_object, empty_object, False) =
      (fold (\<lambda>k obj. object_set obj k k) (concat (map (dims_of H model) (xs @ [x]))) empty_object,
       fst (snd ?s),
       list_ex (\<lambda>(fieldDef, channel). truthy_opt_string (fd_aggregate fieldDef)) (xs @ [x]))"
    unfolding summary_step_dims summary_step_flag
    by (simp add: x)
  then show ?case by (rule exI)
qed

lemma summary_def_eq:
  "\<exists>summarize. summary_def H model =
     (if list_ex (\<lambda>(fieldDef, channel). truthy_opt_string (fd_aggregate fieldDef)) (channelDefs model)
      then Some \<lparr>name = SUMMARY, source = Some SOURCE, vg_values = None, format = None, url = None,
                 transform = [VgAggregate
                   (Some (property_order (concat (map (dims_of H model) (channelDefs model)))))
                   (SummarizeMap summarize)]\<rparr>
      else None)"
proof -
  obtain meas where
    "fold (\<lambda>(fieldDef, channel) acc. summary_step H model acc fieldDef channel) (channelDefs model)
        (empty_object, empty_object, False) =
     (fold (\<lambda>k obj. object_set obj k k) (concat (map (dims_of H model) (channelDefs model))) empty_object,
      meas,
      list_ex (\<lambda>(fieldDef, channel). truthy_opt_string (fd_aggregate fieldDef)) (channelDefs model))"
    using summary_fold by blast
  moreover have "vals (fold (\<lambda>k obj. object_set obj k k) ks empty_object) = property_order ks" for ks
    using vals_fold_diagonal [of empty_object ks] keys_fold_object_set [of "\<lambda>k. k" "\<lambda>k. k" ks]
    by (simp add: entries_def empty_object_def)
  ultimately show ?thesis
    by (simp add: summary_def_def reduce_def Let_def)
qed






subsection \<open>The time-domain datasets\<close>

lemma map_of_flags: "(map_of (map (\<lambda>k. (k, True)) ks) k \<noteq> Some True) = (k \<notin> set ks)"
  by (induction ks) auto

lemma fst_flags: "fst ` set (map (\<lambda>k. (k, True)) ks) = set ks"
  by force

lemma dates_step_at:
  "dates_step H (map (\<lambda>k. (k, True)) ks, agg) fd c =
     (if truthy_opt_string (fd_timeUnit fd) \<and> rawDomain H (the (fd_timeUnit fd)) c \<noteq> None \<and>
         the (fd_timeUnit fd) \<notin> set ks
      then (map (\<lambda>k. (k, True)) (ks @ [the (fd_timeUnit fd)]),
            agg @ [date_table H (the (fd_timeUnit fd)) (the (rawDomain H (the (fd_timeUnit fd)) c))])
      else (map (\<lambda>k. (k, True)) ks, agg))"
  by (simp add: dates_step_def Let_def map_of_flags dict_set_new fst_flags date_table_def
      del: set_map)

lemma dated_snoc:
  "dated H (xs @ [(fd, c)]) =
     (if truthy_opt_string (fd_timeUnit fd) \<and> rawDomain H (the (fd_timeUnit fd)) c \<noteq> None
      then dated H xs @ [(the (fd_timeUnit fd), the (rawDomain H (the (fd_timeUnit fd)) c))]
      else dated H xs)"
  by (simp add: dated_def)

lemma map_of_snoc_old:
  "k \<in> fst ` set ps \<Longrightarrow> map_of (ps @ [(k', v)]) k = map_of ps k"
  by (auto simp: map_add_def map_of_eq_None_iff split: option.splits)

lemma map_of_snoc_new:
  "k \<notin> fst ` set ps \<Longrightarrow> map_of (ps @ [(k, v)]) k = Some v"
  by (simp add: map_add_def map_of_eq_None_iff [THEN iffD2])

lemma date_tables_snoc:
  "map (\<lambda>timeUnit. date_table H timeUnit (the (map_of (ps @ [(k', v)]) timeUnit))) (firsts (map fst ps)) =
   map (\<lambda>timeUnit. date_table H timeUnit (the (map_of ps timeUnit))) (firsts (map fst ps))"
  by (rule map_cong) (simp_all add: map_of_snoc_old set_firsts del: map_of_append)

lemma dates_fold:
  "fold (\<lambda>(fieldDef, channel) acc. dates_step H acc fieldDef channel) xs ([], []) =
     (map (\<lambda>k. (k, True)) (firsts (map fst (dated H xs))),
      map (\<lambda>timeUnit. date_table H timeUnit (the (map_of (dated H xs) timeUnit)))
        (firsts (map fst (dated H xs))))"
proof (induction xs rule: rev_induct)
  case Nil
  show ?case by (simp add: dated_def firsts_def)
next
  case (snoc x xs)
  obtain fd c where x: "x = (fd, c)" by (cases x)
  have "fold (\<lambda>(fieldDef, channel) acc. dates_step H acc fieldDef channel) (xs @ [x]) ([], []) =
        dates_step H (map (\<lambda>k. (k, True)) (firsts (map fst (dated H xs))),
      map (\<lambda>timeUnit. date_table H timeUnit (the (map_of (dated H xs) timeUnit)))
        (firsts (map fst (dated H xs)))) fd c"
    by (simp add: x snoc)
  also have "\<dots> = (map (\<lambda>k. (k, True)) (firsts (map fst (dated H (xs @ [x])))),
      map (\<lambda>timeUnit. date_table H timeUnit (the (map_of (dated H (xs @ [x])) timeUnit)))
        (firsts (map fst (dated H (xs @ [x])))))"
    unfolding x dates_step_at dated_snoc
    by (simp add: firsts_snoc set_firsts date_tables_snoc map_of_snoc_new del: map_of_append)
  finally show ?case .
qed

lemma dates_defs_eq:
  "dates_defs H model =
     map (\<lambda>timeUnit. date_table H timeUnit (the (map_of (dated H (channelDefs model)) timeUnit)))
       (firsts (map fst (dated H (channelDefs model))))"
  by (simp add: dates_defs_def reduce_def dates_fold)

text \<open>
  C9. Take the occurrences, in scan order, of a time unit on a channel where \<open>rawDomain\<close>
  is not null. \<open>dates.defs\<close> returns one dataset per distinct time unit among them, in the
  order of first occurrence, so no two datasets share a name. The dataset is named by the
  time unit, its inline values are the raw domain of the first such occurrence (what
  \<open>map_of\<close> finds), and its transform list is the single formula on \<open>date\<close> that
  \<open>parseExpression\<close> gives for the unit. Later occurrences of the unit add nothing.
\<close>

theorem dates_defs_first_occurrence:
  "let occurrences =
         map (\<lambda>(fieldDef, channel). (the (fd_timeUnit fieldDef),
                the (rawDomain H (the (fd_timeUnit fieldDef)) channel)))
           (filter (\<lambda>(fieldDef, channel). truthy_opt_string (fd_timeUnit fieldDef) \<and>
                      rawDomain H (the (fd_timeUnit fieldDef)) channel \<noteq> None) (channelDefs model))
   in dates_defs H model =
        map (\<lambda>timeUnit.
              \<lparr>name = timeUnit, source = None,
               vg_values = Some (Enumeration (the (map_of occurrences timeUnit))),
               format = None, url = None,
               transform = [VgFormula ''date'' (Str (parseExpression H timeUnit ''datum.data'' True))]\<rparr>)
          (firsts (map fst occurrences)) \<and>
      distinct (map name (dates_defs H model)) \<and>
      set (map name (dates_defs H model)) = fst ` set occurrences"
proof -
  have names: "map name (dates_defs H model) = firsts (map fst (dated H (channelDefs model)))"
    by (simp add: dates_defs_eq comp_def date_table_def)
  have d: "distinct (map name (dates_defs H model))"
    unfolding names by (rule distinct_firsts)
  have s: "set (map name (dates_defs H model)) = fst ` set (dated H (channelDefs model))"
    unfolding names by (simp add: set_firsts)
  from dates_defs_eq [of H model] d s show ?thesis
    unfolding Let_def dated_def date_table_def by (intro conjI)
qed

subsection \<open>The post-processors\<close>

lemma rankTransform_eq:
  "rankTransform dataTable model =
     dataTable\<lparr>transform := transform dataTable @ (if ordinal_color model then rank_transforms model else [])\<rparr>"
  by (simp add: rankTransform_def ordinal_color_def rank_transforms_def)

lemma log_scale_eq:
  "(case model_scale model c of None \<Rightarrow> False | Some sc \<Rightarrow> sc_type sc = Some ''log'') =
   (Option.bind (model_scale model c) sc_type = Some ''log'')"
  by (cases "model_scale model c") simp_all

lemma filterNonPositiveForLog_eq:
  "filterNonPositiveForLog dataTable model =
     dataTable\<lparr>transform := transform dataTable @ log_filters model\<rparr>"
  unfolding filterNonPositiveForLog_def reduce_def Let_def log_filters_def log_scale_eq
  by (rule fold_append_transform)

lemma assembled_eq:
  "compileData_assembled H model =
     (case summary_def H model of Some summaryDef \<Rightarrow> [source_def H model, summaryDef]
      | None \<Rightarrow> [source_def H model])"
  by (simp add: compileData_assembled_def Let_def split: option.split)

lemma assembled_last:
  "compileData_assembled H model = butlast (compileData_assembled H model) @ [target H model]"
  by (simp add: assembled_eq target_def split: option.split)

lemma postprocessed_eq:
  "compileData_postprocessed H model =
     butlast (compileData_assembled H model) @
     [(target H model)\<lparr>transform := transform (target H model) @
        (if ordinal_color model then rank_transforms model else []) @ log_filters model\<rparr>]"
  by (simp add: compileData_postprocessed_def Let_def assembled_eq target_def rankTransform_eq
      filterNonPositiveForLog_eq split: option.split)

lemma compileData_Inr:
  assumes "compileData H model = Inr out"
  shows "\<exists>layoutDef. layout_def H model = Inr layoutDef \<and>
           out = compileData_postprocessed H model @ [layoutDef] @
                 (case model_stack model of Some sp \<Rightarrow> [stack_def model sp] | None \<Rightarrow> []) @
                 dates_defs H model"
  using assms by (auto simp: compileData_def Let_def split: sum.splits option.splits)

lemma reduce_invariant:
  assumes "P init" and "\<And>acc fd c. P acc \<Longrightarrow> P (f acc fd c)"
  shows "P (reduce model f init)"
proof -
  have "P acc \<Longrightarrow> P (fold (\<lambda>(fd, c) acc. f acc fd c) xs acc)" for xs acc
    by (induction xs arbitrary: acc) (auto intro: assms(2))
  with assms(1) show ?thesis by (simp add: reduce_def)
qed

lemma plain_nullFilter: "plain (nullFilterTransform model)"
  by (simp add: nullFilterTransform_def Let_def)

lemma plain_formula: "plain (formulaTransform model)"
proof -
  have "plain acc \<Longrightarrow> plain (fold (\<lambda>formula transform. transform @ [VgFormula (f_field formula) (Str (f_expr formula))]) fs acc)" for fs acc
    by (induction fs arbitrary: acc) auto
  from this [of "[]"] show ?thesis by (simp add: formulaTransform_def)
qed

lemma plain_filter: "plain (filterTransform model)"
  by (simp add: filterTransform_def Let_def)

lemma plain_bin: "plain (binTransform H model)"
  unfolding binTransform_def
  by (rule reduce_invariant) (simp_all add: binTransform_step_def Let_def)

lemma plain_time: "plain (timeTransform H model)"
  unfolding timeTransform_def
  by (rule reduce_invariant) (simp_all add: Let_def)

lemma plain_source: "plain (transform (source_def H model))"
  by (simp add: source_def_def Let_def source_transform_def plain_nullFilter plain_formula plain_filter
      plain_bin plain_time split: option.split)

lemma plain_summary: "summary_def H model = Some d \<Longrightarrow> plain (transform d)"
  using summary_def_eq [of H model] by (auto split: if_splits)

lemma plain_target: "plain (transform (target H model))"
  by (auto simp: target_def plain_source plain_summary split: option.split)

lemma plain_log_filters: "plain (log_filters model)"
  by (simp add: log_filters_def list_all_iff)

lemma plain_layout: "layout_def H model = Inr d \<Longrightarrow> plain (transform d)"
  by (auto simp: layout_def_def Let_def split: sum.splits if_splits)

lemma plain_stack: "plain (transform (stack_def model sp))"
  by (simp add: stack_def_def Let_def)

lemma plain_dates: "d \<in> set (dates_defs H model) \<Longrightarrow> plain (transform d)"
  by (auto simp: dates_defs_eq date_table_def)

lemma plain_assembled: "d \<in> set (compileData_assembled H model) \<Longrightarrow> plain (transform d)"
  by (auto simp: assembled_eq plain_source plain_summary split: option.splits)

lemma trailing_eq:
  assumes "compileData H model = Inr out"
  shows "out ! (length (compileData_assembled H model) - 1) =
         (target H model)\<lparr>transform := transform (target H model) @
            (if ordinal_color model then rank_transforms model else []) @ log_filters model\<rparr>"
    and "take (length (compileData_assembled H model)) out = compileData_postprocessed H model"
proof -
  obtain layoutDef where out: "out = compileData_postprocessed H model @ [layoutDef] @
                 (case model_stack model of Some sp \<Rightarrow> [stack_def model sp] | None \<Rightarrow> []) @
                 dates_defs H model"
    using compileData_Inr [OF assms] by blast
  have len: "length (compileData_postprocessed H model) = length (compileData_assembled H model)"
    by (simp add: postprocessed_eq assembled_eq split: option.split)
  show "take (length (compileData_assembled H model)) out = compileData_postprocessed H model"
    by (simp add: out len [symmetric])
  show "out ! (length (compileData_assembled H model) - 1) =
         (target H model)\<lparr>transform := transform (target H model) @
            (if ordinal_color model then rank_transforms model else []) @ log_filters model\<rparr>"
    unfolding out len [symmetric]
    by (simp add: postprocessed_eq nth_append)
qed

lemma all_plain:
  assumes "compileData H model = Inr out" and "\<not> ordinal_color model" and "d \<in> set out"
  shows "plain (transform d)"
proof -
  obtain layoutDef where l: "layout_def H model = Inr layoutDef" and out: "out = compileData_postprocessed H model @ [layoutDef] @
                 (case model_stack model of Some sp \<Rightarrow> [stack_def model sp] | None \<Rightarrow> []) @
                 dates_defs H model"
    using compileData_Inr [OF assms(1)] by blast
  from assms(3) consider "d \<in> set (compileData_postprocessed H model)" | "d = layoutDef"
    | "d \<in> set (case model_stack model of Some sp \<Rightarrow> [stack_def model sp] | None \<Rightarrow> [])"
    | "d \<in> set (dates_defs H model)"
    unfolding out by auto
  then show ?thesis
  proof cases
    case 1
    then consider "d \<in> set (butlast (compileData_assembled H model))"
      | "d = (target H model)\<lparr>transform := transform (target H model) @ log_filters model\<rparr>"
      using assms(2) by (auto simp: postprocessed_eq)
    then show ?thesis
    proof cases
      case 1
      then have "d \<in> set (compileData_assembled H model)" by (rule in_set_butlastD)
      then show ?thesis by (rule plain_assembled)
    next
      case 2
      then show ?thesis by (simp add: plain_target plain_log_filters)
    qed
  next
    case 2
    with l show ?thesis by (simp add: plain_layout)
  next
    case 3
    then show ?thesis by (cases "model_stack model") (simp_all add: plain_stack)
  next
    case 4
    then show ?thesis by (rule plain_dates)
  qed
qed

lemma compileData_example_log_color:
  "compileData example_helpers example_log_color = Inr example_log_color_output"
  by code_simp


text \<open>
  C7. \<open>filterNonPositiveForLog\<close> changes the dataset it is given only by appending to its
  transform list, for the channels scanned in order, one filter per channel whose scale has
  type exactly \<open>log\<close>; the test of the filter is the channel's own field reference (with the
  \<open>datum.\<close> option) followed by \<open> > 0\<close>. A channel with no scale, or with a scale of
  another type, gets no filter.
\<close>

theorem filterNonPositiveForLog_appends:
  "filterNonPositiveForLog dataTable model =
     dataTable\<lparr>transform := transform dataTable @
       map (\<lambda>channel. VgFilter (model_field model channel (no_opt\<lparr>datum := True\<rparr>) @ '' > 0''))
         (filter (\<lambda>channel. Option.bind (model_scale model channel) sc_type = Some ''log'')
            (map snd (channelDefs model)))\<rparr>"
proof -
  have eq: "(\<lambda>c. case model_scale model c of None \<Rightarrow> False | Some sc \<Rightarrow> sc_type sc = Some ''log'')
        = (\<lambda>c. Option.bind (model_scale model c) sc_type = Some ''log'')"
  proof
    fix c
    show "(case model_scale model c of None \<Rightarrow> False | Some sc \<Rightarrow> sc_type sc = Some ''log'')
        = (Option.bind (model_scale model c) sc_type = Some ''log'')"
      by (cases "model_scale model c") simp_all
  qed
  show ?thesis
    unfolding filterNonPositiveForLog_def reduce_def Let_def
    using fold_append_transform [of
        "\<lambda>c. case model_scale model c of None \<Rightarrow> False | Some sc \<Rightarrow> sc_type sc = Some ''log''"
        "\<lambda>channel. VgFilter (model_field model channel (no_opt\<lparr>datum := True\<rparr>) @ '' > 0'')"
        "channelDefs model" dataTable]
    by (simp add: eq)
qed

text \<open>
  C6. The two post-processors change the running list only in its last element, which is
  the summary dataset when there is one and the source dataset otherwise: the list keeps its
  length and every earlier element; the last element keeps its name, source, values, url and
  format, and its transform list is the former one with transforms appended. Each
  post-processor by itself only appends to the transform list of the dataset it is given.
  The datasets pushed afterwards leave this prefix of the list as it is.
\<close>

theorem postprocessors_frame:
  "let assembled = compileData_assembled H model;
       processed = compileData_postprocessed H model;
       built = (case summary_def H model of Some summaryDef \<Rightarrow> summaryDef
                | None \<Rightarrow> source_def H model)
   in assembled \<noteq> [] \<and> last assembled = built \<and>
      length processed = length assembled \<and>
      butlast processed = butlast assembled \<and>
      (\<exists>appended. last processed = built\<lparr>transform := transform built @ appended\<rparr>) \<and>
      name (last processed) = name built \<and> source (last processed) = source built \<and>
      vg_values (last processed) = vg_values built \<and> url (last processed) = url built \<and>
      format (last processed) = format built \<and>
      (\<forall>dataTable. \<exists>appended.
         rankTransform dataTable model = dataTable\<lparr>transform := transform dataTable @ appended\<rparr>) \<and>
      (\<forall>dataTable. \<exists>appended.
         filterNonPositiveForLog dataTable model =
           dataTable\<lparr>transform := transform dataTable @ appended\<rparr>) \<and>
      (\<forall>out. compileData H model = Inr out \<longrightarrow> take (length assembled) out = processed)"
proof -
  have a: "compileData_assembled H model \<noteq> []"
    by (simp add: assembled_eq split: option.split)
  have b: "last (compileData_assembled H model) = target H model"
    by (subst assembled_last) simp
  have c: "length (compileData_postprocessed H model) = length (compileData_assembled H model)"
    by (simp add: postprocessed_eq assembled_eq split: option.split)
  have d: "butlast (compileData_postprocessed H model) = butlast (compileData_assembled H model)"
    by (simp add: postprocessed_eq)
  have e: "last (compileData_postprocessed H model) =
      (target H model)\<lparr>transform := transform (target H model) @
        ((if ordinal_color model then rank_transforms model else []) @ log_filters model)\<rparr>"
    by (simp add: postprocessed_eq)
  have f: "\<exists>appended. rankTransform dataTable model =
      dataTable\<lparr>transform := transform dataTable @ appended\<rparr>" for dataTable
    unfolding rankTransform_eq by (rule exI) (rule refl)
  have g: "\<exists>appended. filterNonPositiveForLog dataTable model =
      dataTable\<lparr>transform := transform dataTable @ appended\<rparr>" for dataTable
    unfolding filterNonPositiveForLog_eq by (rule exI) (rule refl)
  have h: "take (length (compileData_assembled H model)) out = compileData_postprocessed H model"
    if "compileData H model = Inr out" for out
    using that by (rule trailing_eq(2))
  have e': "\<exists>appended. last (compileData_postprocessed H model) =
      (target H model)\<lparr>transform := transform (target H model) @ appended\<rparr>"
    unfolding e by (rule exI) (rule refl)
  have "compileData_assembled H model \<noteq> [] \<and> last (compileData_assembled H model) = target H model \<and>
      length (compileData_postprocessed H model) = length (compileData_assembled H model) \<and>
      butlast (compileData_postprocessed H model) = butlast (compileData_assembled H model) \<and>
      (\<exists>appended. last (compileData_postprocessed H model) =
         (target H model)\<lparr>transform := transform (target H model) @ appended\<rparr>) \<and>
      name (last (compileData_postprocessed H model)) = name (target H model) \<and>
      source (last (compileData_postprocessed H model)) = source (target H model) \<and>
      vg_values (last (compileData_postprocessed H model)) = vg_values (target H model) \<and>
      url (last (compileData_postprocessed H model)) = url (target H model) \<and>
      format (last (compileData_postprocessed H model)) = format (target H model) \<and>
      (\<forall>dataTable. \<exists>appended.
         rankTransform dataTable model = dataTable\<lparr>transform := transform dataTable @ appended\<rparr>) \<and>
      (\<forall>dataTable. \<exists>appended.
         filterNonPositiveForLog dataTable model =
           dataTable\<lparr>transform := transform dataTable @ appended\<rparr>) \<and>
      (\<forall>out. compileData H model = Inr out \<longrightarrow>
         take (length (compileData_assembled H model)) out = compileData_postprocessed H model)"
    using a b c d e' f g h by (simp add: e)
  then show ?thesis
    unfolding Let_def target_def .
qed

theorem postprocessors_frame_witness:
  "compileData example_helpers example_log_color = Inr example_log_color_output \<and>
   take (length (compileData_assembled example_helpers example_log_color)) example_log_color_output =
     compileData_postprocessed example_helpers example_log_color"
  using postprocessors_frame [of example_helpers example_log_color] compileData_example_log_color
  by (simp add: Let_def)

text \<open>
  C2 (as amended). In what \<open>compileData\<close> returns, some dataset has the sort by the color
  field immediately followed by the rank transform exactly when the color channel is bound
  to a field of ordinal type. The two transforms are then in the trailing dataset (the
  summary dataset when there is one, else the source dataset), right after all the
  transforms that dataset was built with, and only the log filters follow them: one filter
  per scanned channel whose scale has type \<open>log\<close>.
\<close>

theorem rank_transform_placement:
  assumes "compileData H model = Inr out"
  shows "let ordinalColor = (has model COLOR \<and> fd_type (model_fieldDef model COLOR) = ORDINAL);
             rank = [VgSort (model_field model COLOR no_opt),
                     VgRank (model_field model COLOR no_opt)
                            (model_field model COLOR (no_opt\<lparr>prefn := Some ''rank_''\<rparr>))];
             logFilters =
               map (\<lambda>channel. VgFilter (model_field model channel (no_opt\<lparr>datum := True\<rparr>) @ '' > 0''))
                 (filter (\<lambda>channel. Option.bind (model_scale model channel) sc_type = Some ''log'')
                    (map snd (channelDefs model)));
             built = (case summary_def H model of Some summaryDef \<Rightarrow> summaryDef
                      | None \<Rightarrow> source_def H model);
             trailing = out ! (length (compileData_assembled H model) - 1)
         in ((\<exists>d \<in> set out. \<exists>before after. transform d = before @ rank @ after) \<longleftrightarrow> ordinalColor) \<and>
            (ordinalColor \<longrightarrow> transform trailing = transform built @ rank @ logFilters)"
proof -
  have tr: "transform (out ! (length (compileData_assembled H model) - 1)) =
        transform (target H model) @ (if ordinal_color model then rank_transforms model else []) @
        log_filters model"
    by (subst trailing_eq(1) [OF assms]) simp
  have mem: "out ! (length (compileData_assembled H model) - 1) \<in> set out"
  proof -
    have "length (take (length (compileData_assembled H model)) out) = length (compileData_postprocessed H model)"
      by (simp only: trailing_eq(2) [OF assms])
    moreover have "length (compileData_postprocessed H model) = length (compileData_assembled H model)"
      by (simp add: postprocessed_eq assembled_eq split: option.split)
    ultimately have "length (compileData_assembled H model) \<le> length out"
      by simp
    moreover have "0 < length (compileData_assembled H model)"
      by (simp add: assembled_eq split: option.split)
    ultimately show ?thesis by (intro nth_mem) linarith
  qed
  have fwd: "ordinal_color model" if "d \<in> set out" "transform d = before @ rank_transforms model @ after"
    for d before after
  proof (rule ccontr)
    assume "\<not> ordinal_color model"
    then have "plain (transform d)" using all_plain [OF assms] that(1) by blast
    then show False by (simp add: that(2) rank_transforms_def)
  qed
  have bwd: "\<exists>d \<in> set out. \<exists>before after. transform d = before @ rank_transforms model @ after"
    if "ordinal_color model"
  proof (intro bexI exI)
    show "transform (out ! (length (compileData_assembled H model) - 1)) =
        transform (target H model) @ rank_transforms model @ log_filters model"
      using that tr by simp
  qed (rule mem)
  have main: "((\<exists>d \<in> set out. \<exists>before after. transform d = before @ rank_transforms model @ after)
                 \<longleftrightarrow> ordinal_color model) \<and>
            (ordinal_color model \<longrightarrow> transform (out ! (length (compileData_assembled H model) - 1)) =
               transform (target H model) @ rank_transforms model @ log_filters model)"
  proof (intro conjI iffI impI)
    assume "\<exists>d \<in> set out. \<exists>before after. transform d = before @ rank_transforms model @ after"
    then show "ordinal_color model" using fwd by blast
  next
    assume "ordinal_color model"
    then show "\<exists>d \<in> set out. \<exists>before after. transform d = before @ rank_transforms model @ after"
      by (rule bwd)
  next
    assume "ordinal_color model"
    then show "transform (out ! (length (compileData_assembled H model) - 1)) =
               transform (target H model) @ rank_transforms model @ log_filters model"
      using tr by simp
  qed
  then show ?thesis
    unfolding Let_def ordinal_color_def rank_transforms_def log_filters_def target_def .
qed

theorem rank_transform_placement_witness:
  "compileData example_helpers example_log_color = Inr example_log_color_output \<and>
   has example_log_color COLOR \<and> fd_type (model_fieldDef example_log_color COLOR) = ORDINAL \<and>
   transform (example_log_color_output ! 0) =
     transform (source_def example_helpers example_log_color) @
     [VgSort ''c'', VgRank ''c'' ''rank_c''] @ [VgFilter ''datum.a > 0'']"
proof -
  have none: "summary_def example_helpers example_log_color = None"
    by code_simp
  have cond: "has example_log_color COLOR \<and> fd_type (model_fieldDef example_log_color COLOR) = ORDINAL"
    by (simp add: example_log_color_def example_model_def plain_field_def)
  have len: "length (compileData_assembled example_helpers example_log_color) - 1 = 0"
    by (simp add: assembled_eq none)
  from rank_transform_placement [OF compileData_example_log_color] cond
  have "transform (example_log_color_output ! 0) =
     transform (source_def example_helpers example_log_color) @
     [VgSort (model_field example_log_color COLOR no_opt),
      VgRank (model_field example_log_color COLOR no_opt)
             (model_field example_log_color COLOR (no_opt\<lparr>prefn := Some ''rank_''\<rparr>))] @
     map (\<lambda>channel. VgFilter (model_field example_log_color channel (no_opt\<lparr>datum := True\<rparr>) @ '' > 0''))
       (filter (\<lambda>channel. Option.bind (model_scale example_log_color channel) sc_type = Some ''log'')
          (map snd (channelDefs example_log_color)))"
    unfolding Let_def none len by simp
  moreover have "model_field example_log_color COLOR no_opt = ''c''"
    by (simp add: example_log_color_def example_model_def example_helpers_def plain_field_def no_opt_def)
  moreover have "model_field example_log_color COLOR (no_opt\<lparr>prefn := Some ''rank_''\<rparr>) = ''rank_c''"
    by (simp add: example_log_color_def example_model_def example_helpers_def plain_field_def no_opt_def)
  moreover have "map (\<lambda>channel. VgFilter (model_field example_log_color channel (no_opt\<lparr>datum := True\<rparr>) @ '' > 0''))
       (filter (\<lambda>channel. Option.bind (model_scale example_log_color channel) sc_type = Some ''log'')
          (map snd (channelDefs example_log_color))) = [VgFilter ''datum.a > 0'']"
    by (simp add: example_log_color_def example_model_def example_helpers_def plain_field_def
        plain_scale_def no_opt_def)
  ultimately show ?thesis
    using compileData_example_log_color cond by simp
qed

text \<open>
  The claim as stated fails on the point chart with a log scale on x and an ordinal color:
  the sort and the rank are followed, in the source dataset, by the filter of the log scale.
\<close>

theorem rank_transform_last_counterexample:
  "has example_log_color COLOR \<and> fd_type (model_fieldDef example_log_color COLOR) = ORDINAL \<and>
   compileData example_helpers example_log_color = Inr example_log_color_output \<and>
   transform (example_log_color_output ! 0) =
     [VgFilter ''datum.a!==null && datum.b!==null'', VgSort ''c'', VgRank ''c'' ''rank_c'',
      VgFilter ''datum.a > 0''] \<and>
   last (transform (example_log_color_output ! 0)) \<noteq> VgRank ''c'' ''rank_c''"
  using compileData_example_log_color
  by (simp add: example_log_color_def example_model_def plain_field_def example_log_color_output_def)

subsection \<open>The layout dataset\<close>

text \<open>
  C1. The layout dataset of the bar chart with one quantitative field on x and nothing on y,
  row or column: the four formulas are there in order, but the \<open>height\<close> formula is the
  \<open>cellWidth\<close> expression (200), not the \<open>cellHeight\<close> expression (21).
\<close>

theorem layout_def_example_bar:
  "layout_def example_helpers example_bar =
     Inr \<lparr>name = ''layout'', source = None, vg_values = Some EmptyRow, format = None, url = None,
          transform = [VgFormula ''cellWidth'' (Num 200), VgFormula ''cellHeight'' (Num 21),
                       VgFormula ''width'' (Num 200), VgFormula ''height'' (Num 200)]\<rparr>"
  by code_simp

end
